theory Spec2Isabelle
  imports Main "HOL-Library.Sublist"
begin

unbundle bit_operations_syntax

section \<open>Python strings\<close>

text \<open>
  A Python \<open>str\<close> is modelled as a \<open>string\<close> whose characters are read as the code points
  U+0000 .. U+00FF, one \<open>char\<close> per code point, so that \<open>len\<close> is \<open>length\<close>.
  Text with code points above U+00FF is outside the model.
\<close>

definition is_space :: "char \<Rightarrow> bool" where
  \<comment> \<open>\<open>str.isspace\<close> on one character, which is also what \<open>str.strip()\<close> removes and what
      \<open>\s\<close> matches in a \<open>str\<close> pattern.\<close>
  "is_space c \<longleftrightarrow> c \<in> set [CHR 0x09, CHR 0x0A, CHR 0x0B, CHR 0x0C, CHR 0x0D,
                           CHR 0x1C, CHR 0x1D, CHR 0x1E, CHR 0x1F, CHR 0x20, CHR 0x85, CHR 0xA0]"

definition is_digit :: "char \<Rightarrow> bool" where
  \<comment> \<open>\<open>\d\<close>: the decimal digits; below U+0100 these are \<open>0\<close> .. \<open>9\<close> only.\<close>
  "is_digit c \<longleftrightarrow> c \<in> set ''0123456789''"

definition lower_char :: "char \<Rightarrow> char" where
  \<comment> \<open>\<open>str.lower\<close> on one character: \<open>A\<close> .. \<open>Z\<close> and U+00C0 .. U+00DE without U+00D7.\<close>
  "lower_char c =
     (let n = (of_char c :: nat)
      in if (65 \<le> n \<and> n \<le> 90) \<or> (192 \<le> n \<and> n \<le> 222 \<and> n \<noteq> 215) then char_of (n + 32) else c)"

definition lower :: "string \<Rightarrow> string" where
  "lower s = map lower_char s"

definition strip :: "string \<Rightarrow> string" where
  \<comment> \<open>\<open>s.strip()\<close>\<close>
  "strip s = rev (dropWhile is_space (rev (dropWhile is_space s)))"

fun split :: "char \<Rightarrow> string \<Rightarrow> string list" where
  \<comment> \<open>\<open>s.split(sep)\<close> for a separator of one character: never the empty list.\<close>
  "split sep [] = [[]]"
| "split sep (c # cs) =
     (if c = sep then [] # split sep cs
      else (case split sep cs of [] \<Rightarrow> [[c]] | l # ls \<Rightarrow> (c # l) # ls))"

fun join :: "string \<Rightarrow> string list \<Rightarrow> string" where
  \<comment> \<open>\<open>sep.join(xs)\<close>\<close>
  "join sep [] = []"
| "join sep [x] = x"
| "join sep (x # y # zs) = x @ sep @ join sep (y # zs)"

definition endswith :: "string \<Rightarrow> string \<Rightarrow> bool" where
  "endswith s suf = suffix suf s"

fun replace :: "string \<Rightarrow> string \<Rightarrow> string \<Rightarrow> string" where
  \<comment> \<open>\<open>s.replace(old, new)\<close> for a non-empty \<open>old\<close>: every occurrence, left to right, without
      overlap. (The only call has \<open>old = "arxiv:"\<close>.)\<close>
  "replace old new [] = []"
| "replace old new (c # cs) =
     (if old \<noteq> [] \<and> prefix old (c # cs) then new @ replace old new (drop (length old - 1) cs)
      else c # replace old new cs)"

section \<open>The regular expressions of \<open>section_pattern\<close>\<close>

datatype cset = Digit | Space

fun cmatch :: "cset \<Rightarrow> char \<Rightarrow> bool" where
  "cmatch Digit c = is_digit c"
| "cmatch Space c = is_space c"

datatype regex =
    Str string          \<comment> \<open>a literal, compared under \<open>re.IGNORECASE\<close>\<close>
  | Star cset           \<comment> \<open>\<open>\s*\<close>, \<open>\d*\<close>\<close>
  | Plus cset           \<comment> \<open>\<open>\s+\<close>, \<open>\d+\<close>\<close>
  | Opt regex           \<comment> \<open>\<open>r?\<close> and \<open>(?:r)?\<close>\<close>
  | Seq regex regex
  | Alt regex regex     \<comment> \<open>\<open>r|r'\<close>\<close>

fun star_rests :: "cset \<Rightarrow> string \<Rightarrow> string list" where
  \<comment> \<open>what is left of the subject after \<open>c*\<close>, the longest run first\<close>
  "star_rests c [] = [[]]"
| "star_rests c (x # xs) = (if cmatch c x then star_rests c xs @ [x # xs] else [x # xs])"

fun matches :: "regex \<Rightarrow> string \<Rightarrow> string list" where
  \<comment> \<open>Every way the expression matches at the start of the subject, in the order a
      backtracking matcher tries them; each is given by what is left of the subject.\<close>
  "matches (Str w) s =
     (if length w \<le> length s \<and> lower (take (length w) s) = lower w then [drop (length w) s] else [])"
| "matches (Star c) s = star_rests c s"
| "matches (Plus c) s =
     (case s of [] \<Rightarrow> [] | x # xs \<Rightarrow> if cmatch c x then star_rests c xs else [])"
| "matches (Opt r) s = matches r s @ [s]"
| "matches (Seq r r') s = concat (map (matches r') (matches r s))"
| "matches (Alt r r') s = matches r s @ matches r' s"

definition re_match :: "regex \<Rightarrow> string \<Rightarrow> bool" where
  \<comment> \<open>\<open>pattern.match(s)\<close> as a truth value: a match anchored at the start of \<open>s\<close>.\<close>
  "re_match r s \<longleftrightarrow> matches r s \<noteq> []"

fun alts :: "regex \<Rightarrow> regex list \<Rightarrow> regex" where
  "alts r [] = r"
| "alts r (r' # rs) = Alt r (alts r' rs)"

definition section_words :: regex where
  "section_words =
     alts (Str ''abstract'')
      [Str ''introduction'',
       Seq (Str ''related'') (Seq (Star Space) (Str ''work'')),
       Str ''background'',
       Str ''methodology'', Str ''method'', Str ''methods'',
       Str ''approach'',
       Seq (Str ''experiment'') (Opt (Str ''s'')),
       Seq (Str ''result'') (Opt (Str ''s'')),
       Str ''discussion'', Str ''conclusion'', Str ''conclusions'',
       Str ''references'',
       Seq (Str ''acknowledgement'') (Opt (Str ''s'')),
       Str ''appendix'']"

definition number_prefix :: regex where
  \<comment> \<open>\<open>\d+\.?\s*\<close>\<close>
  "number_prefix = Seq (Plus Digit) (Seq (Opt (Str ''.'')) (Star Space))"

definition section_pattern :: regex where
  "section_pattern = Seq (Opt number_prefix) section_words"

section \<open>\<open>extract_text\<close>\<close>

type_synonym msg = string

record sect =
  sec_title :: string
  content :: string

record document =
  title :: "string option"
  pdf_path :: string
  pages :: nat
  doc_text :: string
  sections :: "sect list"

text \<open>
  The section being filled: its title and its content lines (\<open>current_section\<close>, whose
  \<open>"content"\<close> is a list until the section is closed).
\<close>

type_synonym current = "string \<times> string list"

definition close_section :: "sect list \<Rightarrow> current \<Rightarrow> sect list" where
  \<comment> \<open>\<open>if current_section["content"]: ... sections.append(current_section)\<close>\<close>
  "close_section secs cur =
     (if snd cur \<noteq> [] then secs @ [\<lparr>sec_title = fst cur, content = join ''\<newline>'' (snd cur)\<rparr>]
      else secs)"

definition section_line :: "string \<Rightarrow> sect list \<times> current \<Rightarrow> sect list \<times> current" where
  \<comment> \<open>the body of \<open>for line in text.split('\n')\<close>\<close>
  "section_line line st =
     (let line_stripped = strip line
      in if re_match section_pattern line_stripped
         then (close_section (fst st) (snd st), (line_stripped, []))
         else if line_stripped \<noteq> []
              then (fst st, (fst (snd st), snd (snd st) @ [line_stripped]))
              else st)"

fun section_lines :: "string list \<Rightarrow> sect list \<times> current \<Rightarrow> sect list \<times> current" where
  "section_lines [] st = st"
| "section_lines (line # ls) st = section_lines ls (section_line line st)"

fun first_title :: "string list \<Rightarrow> string option" where
  \<comment> \<open>\<open>for line in lines[:5]\<close> up to its \<open>break\<close>\<close>
  "first_title [] = None"
| "first_title (line # ls) =
     (let line = strip line
      in if length line > 10 \<and> length line < 200 then Some line else first_title ls)"

definition page_title :: "string \<Rightarrow> string option" where
  "page_title text = first_title (take 5 (split CHR ''\<newline>'' (strip text)))"

record extract_state =
  full_text :: "string list"
  done_sections :: "sect list"
  current_section :: current
  found_title :: "string option"

definition init_state :: extract_state where
  "init_state = \<lparr>full_text = [], done_sections = [], current_section = (''Beginning'', []),
                 found_title = None\<rparr>"

definition falsy :: "string option \<Rightarrow> bool" where
  \<comment> \<open>\<open>not title\<close>\<close>
  "falsy t \<longleftrightarrow> t = None \<or> t = Some []"

definition page_step :: "nat \<Rightarrow> string \<Rightarrow> extract_state \<Rightarrow> extract_state" where
  \<comment> \<open>the body of the loop over the pages, once \<open>page.get_text()\<close> has returned \<open>text\<close>\<close>
  "page_step page_num text st =
     (let t = (if page_num = 0 \<and> falsy (found_title st)
               then (case page_title text of Some l \<Rightarrow> Some l | None \<Rightarrow> found_title st)
               else found_title st);
          (secs, cur) = section_lines (split CHR ''\<newline>'' text) (done_sections st, current_section st)
      in \<lparr>full_text = full_text st @ [text], done_sections = secs, current_section = cur,
          found_title = t\<rparr>)"

text \<open>
  An opened document is the list of its pages; \<open>page.get_text()\<close> either raises (\<open>Inl\<close>, with
  the exception's message) or returns the page's text.
\<close>

type_synonym pdf = "(msg + string) list"

fun page_loop :: "nat \<Rightarrow> pdf \<Rightarrow> extract_state \<Rightarrow> msg + extract_state" where
  "page_loop page_num [] st = Inr st"
| "page_loop page_num (page # ps) st =
     (case page of
        Inl e \<Rightarrow> Inl e
      | Inr text \<Rightarrow> page_loop (Suc page_num) ps (page_step page_num text st))"

definition extract_doc :: "string \<Rightarrow> pdf \<Rightarrow> msg + document" where
  \<comment> \<open>\<open>extract_text\<close> after \<open>fitz.open(pdf_path)\<close> has returned \<open>doc\<close>\<close>
  "extract_doc path doc =
     (case page_loop 0 doc init_state of
        Inl e \<Rightarrow> Inl e
      | Inr st \<Rightarrow>
          Inr \<lparr>title = found_title st, pdf_path = path, pages = length doc,
               doc_text = join ''\<newline>\<newline>'' (full_text st),
               sections = close_section (done_sections st) (current_section st)\<rparr>)"

section \<open>The cache directory and the network\<close>

text \<open>
  What the program does to the outside is kept in a \<open>world\<close>: the regular files (path to
  bytes), the directories, and the network operations made so far, oldest first.
  \<open>os.path.exists\<close> holds of a regular file and of a directory. What the outside answers
  is an \<open>env\<close>, fixed during a run: the hash function of the running interpreter, the
  temporary directory, what the system refuses when a directory is made, the arXiv
  index, the web and the PDF reader. An answer \<open>Inl e\<close> is an exception whose \<open>str\<close> is
  \<open>e\<close>. A failed download leaves no file, and \<open>open(..., 'wb')\<close> is taken to succeed.
  Paths are POSIX paths.
\<close>

datatype net_op = IndexQuery string | PdfDownload string | HttpGet string

record world =
  files :: "string \<rightharpoonup> string"
  dirs :: "string set"
  net :: "net_op list"

record paper =
  entry_id :: string
  pdf :: "msg + string"    \<comment> \<open>what fetching the paper's PDF gives\<close>

record response =
  status_code :: nat
  http_error :: msg        \<comment> \<open>the message of the \<open>HTTPError\<close> that \<open>raise_for_status\<close> raises\<close>
  resp_content :: string

record env =
  hash :: "string \<Rightarrow> int"
  gettempdir :: string
  mkdir_error :: "string \<Rightarrow> msg option"   \<comment> \<open>the \<open>OSError\<close> of \<open>mkdir\<close> on a free path, if any\<close>
  arxiv_results :: "string \<Rightarrow> msg + paper list"
  requests_get :: "string \<Rightarrow> msg + response"
  fitz_open :: "world \<Rightarrow> string \<Rightarrow> msg + pdf"

definition exists :: "world \<Rightarrow> string \<Rightarrow> bool" where
  \<comment> \<open>\<open>os.path.exists(p)\<close>\<close>
  "exists w p \<longleftrightarrow> files w p \<noteq> None \<or> p \<in> dirs w"

definition makedirs :: "env \<Rightarrow> string \<Rightarrow> world \<Rightarrow> msg + world" where
  \<comment> \<open>\<open>os.makedirs(path, exist_ok=True)\<close> for a path whose parent is there (the temporary
      directory): nothing to do when the directory exists, \<open>FileExistsError\<close> when a regular
      file has the name, and otherwise the directory is made unless the system refuses.\<close>
  "makedirs ev path w =
     (if path \<in> dirs w then Inr w
      else if files w path \<noteq> None
      then Inl (''[Errno 17] File exists: '' @ [CHR 0x27] @ path @ [CHR 0x27])
      else (case mkdir_error ev path of
              Some e \<Rightarrow> Inl e
            | None \<Rightarrow> Inr (w\<lparr>dirs := insert path (dirs w)\<rparr>)))"

definition path_join :: "string \<Rightarrow> string \<Rightarrow> string" where
  \<comment> \<open>\<open>os.path.join(a, b)\<close>\<close>
  "path_join a b =
     (if prefix ''/'' b then b
      else if a = [] \<or> endswith a ''/'' then a @ b
      else a @ ''/'' @ b)"

fun decimal :: "nat \<Rightarrow> string" where
  \<comment> \<open>a non-negative integer in an f-string\<close>
  "decimal n =
     (if n < 10 then [''0123456789'' ! n]
      else decimal (n div 10) @ [''0123456789'' ! (n mod 10)])"

declare decimal.simps [simp del]

definition arxiv_filename :: "string \<Rightarrow> string" where
  "arxiv_filename arxiv_id =
     ''arxiv_'' @ strip (replace ''arxiv:'' [] (lower arxiv_id)) @ ''.pdf''"

definition download_arxiv :: "env \<Rightarrow> string \<Rightarrow> string \<Rightarrow> world \<Rightarrow> (msg + string) \<times> world" where
  "download_arxiv ev arxiv_id cache_dir w =
     (let arxiv_id = strip (replace ''arxiv:'' [] (lower arxiv_id));
          cache_path = path_join cache_dir (''arxiv_'' @ arxiv_id @ ''.pdf'')
      in if exists w cache_path then (Inr cache_path, w)
         else
           (let w1 = w\<lparr>net := net w @ [IndexQuery arxiv_id]\<rparr>
            in case arxiv_results ev arxiv_id of
                 Inl e \<Rightarrow> (Inl e, w1)
               | Inr [] \<Rightarrow> (Inl (''arXiv paper not found: '' @ arxiv_id), w1)
               | Inr (p # _) \<Rightarrow>
                   (let w2 = w1\<lparr>net := net w1 @ [PdfDownload (entry_id p)]\<rparr>
                    in case pdf p of
                         Inl e \<Rightarrow> (Inl e, w2)
                       | Inr bytes \<Rightarrow>
                           (Inr cache_path,
                            w2\<lparr>files := (files w2)
                                  (path_join cache_dir (''arxiv_'' @ arxiv_id @ ''.pdf'') \<mapsto> bytes)\<rparr>))))"

definition url_filename :: "(string \<Rightarrow> int) \<Rightarrow> string \<Rightarrow> string" where
  \<comment> \<open>the first three lines of \<open>download_url\<close>; the first argument is \<open>hash\<close>\<close>
  "url_filename h url =
     (let filename = last (split CHR ''/'' url)
      in if \<not> endswith filename ''.pdf'' then decimal (nat (h url AND 0xFFFFFFFF)) @ ''.pdf''
         else filename)"

definition download_url :: "env \<Rightarrow> string \<Rightarrow> string \<Rightarrow> world \<Rightarrow> (msg + string) \<times> world" where
  "download_url ev url cache_dir w =
     (let cache_path = path_join cache_dir (url_filename (hash ev) url)
      in if exists w cache_path then (Inr cache_path, w)
         else
           (let w1 = w\<lparr>net := net w @ [HttpGet url]\<rparr>
            in case requests_get ev url of
                 Inl e \<Rightarrow> (Inl e, w1)
               | Inr r \<Rightarrow>
                   if 400 \<le> status_code r \<and> status_code r < 600 then (Inl (http_error r), w1)
                   else (Inr cache_path, w1\<lparr>files := (files w1)(cache_path \<mapsto> resp_content r)\<rparr>)))"

definition extract_text :: "env \<Rightarrow> world \<Rightarrow> string \<Rightarrow> msg + document" where
  "extract_text ev w path =
     (case fitz_open ev w path of
        Inl e \<Rightarrow> Inl e
      | Inr doc \<Rightarrow> extract_doc path doc)"

section \<open>\<open>main\<close>\<close>

datatype json =
    JNull
  | JString string
  | JNumber int
  | JArray "json list"
  | JObject "(string \<times> json) list"

text \<open>
  What a run leaves: the JSON documents printed on standard output, in order, the exit
  status, and the exception that was not caught, if any (its traceback goes to standard
  error, and the interpreter exits with status 1). \<open>json.dumps\<close> is not modelled as text.
\<close>

record outcome =
  stdout :: "json list"
  exit_status :: nat
  uncaught :: "msg option"

definition error_json :: "msg \<Rightarrow> json" where
  "error_json e = JObject [(''error'', JString e)]"

definition section_json :: "sect \<Rightarrow> json" where
  "section_json s = JObject [(''title'', JString (sec_title s)), (''content'', JString (content s))]"

definition result_json :: "document \<Rightarrow> string \<Rightarrow> string \<Rightarrow> json" where
  "result_json d source source_type =
     JObject [(''title'', (case title d of None \<Rightarrow> JNull | Some t \<Rightarrow> JString t)),
              (''pdf_path'', JString (pdf_path d)),
              (''pages'', JNumber (int (pages d))),
              (''text'', JString (doc_text d)),
              (''sections'', JArray (map section_json (sections d))),
              (''source'', JString source),
              (''source_type'', JString source_type)]"

definition source_path :: "env \<Rightarrow> string \<Rightarrow> string \<Rightarrow> string \<Rightarrow> world \<Rightarrow> (msg + string) \<times> world" where
  \<comment> \<open>the \<open>if\<close> chain that opens the \<open>try\<close> block of \<open>main\<close>\<close>
  "source_path ev source_type source cache_dir w =
     (if source_type = ''arxiv'' then download_arxiv ev source cache_dir w
      else if source_type = ''local''
      then (if \<not> exists w source then (Inl (''File not found: '' @ source), w) else (Inr source, w))
      else if source_type = ''url'' then download_url ev source cache_dir w
      else (Inl (''Unknown source type: '' @ source_type), w))"

definition report :: "env \<Rightarrow> string \<Rightarrow> string \<Rightarrow> (msg + string) \<times> world \<Rightarrow> outcome \<times> world" where
  \<comment> \<open>the rest of the \<open>try\<close> block, from the outcome of the \<open>if\<close> chain, and the handler\<close>
  "report ev source_type source res =
     (case res of
        (Inl e, w) \<Rightarrow> (\<lparr>stdout = [error_json e], exit_status = 1, uncaught = None\<rparr>, w)
      | (Inr path, w) \<Rightarrow>
          (case extract_text ev w path of
             Inl e \<Rightarrow> (\<lparr>stdout = [error_json e], exit_status = 1, uncaught = None\<rparr>, w)
           | Inr result \<Rightarrow>
               (\<lparr>stdout = [result_json result source source_type], exit_status = 0,
                 uncaught = None\<rparr>, w)))"

definition usage :: string where
  "usage = ''Usage: download_paper.py <arxiv|local|url> <source>''"

definition main :: "env \<Rightarrow> string list \<Rightarrow> world \<Rightarrow> outcome \<times> world" where
  \<comment> \<open>\<open>argv\<close> is \<open>sys.argv\<close>: the script's name, then the arguments. \<open>os.makedirs\<close> stands
      before the \<open>try\<close>: what it raises is not caught.\<close>
  "main ev argv w =
     (if length argv < 3
      then (\<lparr>stdout = [error_json usage], exit_status = 1, uncaught = None\<rparr>, w)
      else
        (let source_type = lower (argv ! 1);
             source = argv ! 2;
             cache_dir = path_join (gettempdir ev) ''paper_cache''
         in case makedirs ev cache_dir w of
              Inl e \<Rightarrow> (\<lparr>stdout = [], exit_status = 1, uncaught = Some e\<rparr>, w)
            | Inr w0 \<Rightarrow>
                report ev source_type source (source_path ev source_type source cache_dir w0)))"

definition json_keys :: "json \<Rightarrow> string list" where
  "json_keys j = (case j of JObject kvs \<Rightarrow> map fst kvs | _ \<Rightarrow> [])"

section \<open>The specification's wording, for comparison\<close>

definition spec_page_title :: "string \<Rightarrow> string option" where
  \<comment> \<open>"Take the first five non-empty trimmed lines; the first one whose trimmed length falls
      strictly between 10 and 200 characters becomes the document title."\<close>
  "spec_page_title page =
     find (\<lambda>l. 10 < length l \<and> length l < 200)
       (take 5 (filter (\<lambda>l. l \<noteq> []) (map strip (split CHR ''\<newline>'' page))))"

definition spec_last_path_segment :: "string \<Rightarrow> string" where
  \<comment> \<open>"the URL's last path segment": the path of a URL ends where its query (\<open>?\<close>) or its
      fragment (\<open>#\<close>) begins.\<close>
  "spec_last_path_segment url =
     last (split CHR ''/'' (takeWhile (\<lambda>c. c \<noteq> CHR ''?'' \<and> c \<noteq> CHR ''#'') url))"

definition starts_with_ci :: "string \<Rightarrow> string \<Rightarrow> bool" where
  \<comment> \<open>\<open>s\<close> starts with \<open>w\<close>, letter case ignored\<close>
  "starts_with_ci s w \<longleftrightarrow> length w \<le> length s \<and> lower (take (length w) s) = lower w"

definition spec_vocabulary :: "string list" where
  \<comment> \<open>"abstract, introduction, related work, background, methodology, method, methods,
      approach, experiment(s), result(s), discussion, conclusion(s), references,
      acknowledgement(s), appendix"\<close>
  "spec_vocabulary =
     [''abstract'', ''introduction'', ''related work'', ''background'', ''methodology'',
      ''method'', ''methods'', ''approach'', ''experiment'', ''experiments'', ''result'',
      ''results'', ''discussion'', ''conclusion'', ''conclusions'', ''references'',
      ''acknowledgement'', ''acknowledgements'', ''appendix'']"

definition spec_heading :: "string \<Rightarrow> bool" where
  \<comment> \<open>"ignoring an optional leading numeral-and-dot prefix and surrounding whitespace, it
      starts with one of a fixed, case-insensitive vocabulary": the prefix is read as
      generously as the pattern reads it (digits, a dot or none, whitespace or none).\<close>
  "spec_heading l \<longleftrightarrow>
     list_ex (\<lambda>rest. list_ex (starts_with_ci rest) spec_vocabulary)
       (matches (Opt number_prefix) l)"

section \<open>What \<open>section_pattern\<close> accepts\<close>

fun lang :: "regex \<Rightarrow> string set" where
  "lang (Str w) = {v. lower v = lower w}"
| "lang (Star c) = {v. list_all (cmatch c) v}"
| "lang (Plus c) = {v. v \<noteq> [] \<and> list_all (cmatch c) v}"
| "lang (Opt r) = insert [] (lang r)"
| "lang (Seq r r') = {u @ v |u v. u \<in> lang r \<and> v \<in> lang r'}"
| "lang (Alt r r') = lang r \<union> lang r'"

definition numbering :: "string \<Rightarrow> bool" where
  \<comment> \<open>one or more digits, then a dot or none, then any whitespace\<close>
  "numbering p \<longleftrightarrow>
     (\<exists>ds dot ws. p = ds @ dot @ ws \<and> ds \<noteq> [] \<and> list_all is_digit ds \<and>
        (dot = [] \<or> dot = ''.'') \<and> list_all is_space ws)"

definition section_names :: "string list" where
  "section_names =
     [''abstract'', ''introduction'', ''background'', ''methodology'',
      ''method'', ''methods'', ''approach'', ''experiment'', ''experiments'', ''result'',
      ''results'', ''discussion'', ''conclusion'', ''conclusions'', ''references'',
      ''acknowledgement'', ''acknowledgements'', ''appendix'']"

definition section_word :: "string \<Rightarrow> bool" where
  \<comment> \<open>one of the names in any letter case, or \<open>related\<close> and \<open>work\<close> in any letter case with
      any whitespace, or none, between them\<close>
  "section_word k \<longleftrightarrow>
     lower k \<in> set section_names \<or>
     (\<exists>a ws b. k = a @ ws @ b \<and> lower a = ''related'' \<and> list_all is_space ws \<and> lower b = ''work'')"

section \<open>A sample environment\<close>

definition sample_env :: env where
  "sample_env =
     \<lparr>hash = (\<lambda>s. - int (length s)),
      gettempdir = ''/tmp'',
      mkdir_error = (\<lambda>p. None),
      arxiv_results =
        (\<lambda>i. if i = ''1706.03762''
              then Inr [\<lparr>entry_id = ''1706.03762v7'', pdf = Inr ''%PDF attention''\<rparr>]
              else Inr []),
      requests_get =
        (\<lambda>u. Inr \<lparr>status_code = 200, http_error = [], resp_content = ''%PDF from '' @ u\<rparr>),
      fitz_open =
        (\<lambda>w p. case files w p of
                  None \<Rightarrow> Inl (''no such file: '' @ p)   \<comment> \<open>also for a directory\<close>
                | Some b \<Rightarrow> if prefix ''%PDF'' b then Inr [Inr b]
                           else Inl ''cannot open broken document'')\<rparr>"

definition empty_world :: world where
  "empty_world = \<lparr>files = Map.empty, dirs = {}, net = []\<rparr>"


section \<open>Extraction: the literal cases\<close>

lemma my_paper_extract:
  "extract_doc ''paper.pdf''
     [Inr ''My Paper\<newline>\<newline>Abstract\<newline>This is the abstract.\<newline>\<newline>Conclusion\<newline>The end.''] =
   Inr \<lparr>title = Some ''This is the abstract.'', pdf_path = ''paper.pdf'', pages = 1,
        doc_text = ''My Paper\<newline>\<newline>Abstract\<newline>This is the abstract.\<newline>\<newline>Conclusion\<newline>The end.'',
        sections = [\<lparr>sec_title = ''Beginning'', content = ''My Paper''\<rparr>,
                    \<lparr>sec_title = ''Abstract'', content = ''This is the abstract.''\<rparr>,
                    \<lparr>sec_title = ''Conclusion'', content = ''The end.''\<rparr>]\<rparr>"
  by code_simp

text \<open>
  C1, as the specification states it, fails: for the single page
  \<open>"My Paper\n\nAbstract\nThis is the abstract.\n\nConclusion\nThe end."\<close> the result does
  not have the title \<open>"My Paper"\<close> together with one page and the two sections
  \<open>Abstract\<close> and \<open>Conclusion\<close>.
\<close>

theorem C1_my_paper_counterexample:
  "\<not> (title (projr (extract_doc ''paper.pdf''
           [Inr ''My Paper\<newline>\<newline>Abstract\<newline>This is the abstract.\<newline>\<newline>Conclusion\<newline>The end.''])) = Some ''My Paper''
      \<and> pages (projr (extract_doc ''paper.pdf''
           [Inr ''My Paper\<newline>\<newline>Abstract\<newline>This is the abstract.\<newline>\<newline>Conclusion\<newline>The end.''])) = 1
      \<and> sections (projr (extract_doc ''paper.pdf''
           [Inr ''My Paper\<newline>\<newline>Abstract\<newline>This is the abstract.\<newline>\<newline>Conclusion\<newline>The end.''])) =
          [\<lparr>sec_title = ''Abstract'', content = ''This is the abstract.''\<rparr>,
           \<lparr>sec_title = ''Conclusion'', content = ''The end.''\<rparr>])"
  by (simp add: my_paper_extract)

text \<open>
  C1, amended: for that single page the extraction succeeds with one page, the title
  \<open>"This is the abstract."\<close> (the first of the first five lines that is longer than 10
  characters; \<open>"My Paper"\<close> has 8) and three sections: \<open>Beginning\<close> with content
  \<open>"My Paper"\<close> (the text before the first heading), then \<open>Abstract\<close> and \<open>Conclusion\<close>.
\<close>

theorem C1_my_paper:
  "extract_doc ''paper.pdf''
     [Inr ''My Paper\<newline>\<newline>Abstract\<newline>This is the abstract.\<newline>\<newline>Conclusion\<newline>The end.''] =
   Inr \<lparr>title = Some ''This is the abstract.'', pdf_path = ''paper.pdf'', pages = 1,
        doc_text = ''My Paper\<newline>\<newline>Abstract\<newline>This is the abstract.\<newline>\<newline>Conclusion\<newline>The end.'',
        sections = [\<lparr>sec_title = ''Beginning'', content = ''My Paper''\<rparr>,
                    \<lparr>sec_title = ''Abstract'', content = ''This is the abstract.''\<rparr>,
                    \<lparr>sec_title = ''Conclusion'', content = ''The end.''\<rparr>]\<rparr>"
  by (rule my_paper_extract)

text \<open>
  C9: a document with no page is not an error: the extraction returns no title, 0 pages,
  no section and the empty text.
\<close>

theorem C9_zero_pages:
  "extract_doc path [] =
   Inr \<lparr>title = None, pdf_path = path, pages = 0, doc_text = [], sections = []\<rparr>"
  by (simp add: extract_doc_def init_state_def close_section_def)

section \<open>Title detection\<close>

lemma first_title_find:
  "first_title ls = find (\<lambda>l. 10 < length l \<and> length l < 200) (map strip ls)"
  by (induction ls) (simp_all add: Let_def)

lemma page_step_later_title:
  "0 < n \<Longrightarrow> found_title (page_step n tx st) = found_title st"
  by (simp add: page_step_def Let_def split: prod.splits)

lemma page_step_first_title:
  "found_title (page_step 0 tx init_state) = page_title tx"
  by (simp add: page_step_def init_state_def falsy_def Let_def split: prod.splits option.splits)

lemma page_loop_title:
  "page_loop n ps st = Inr st' \<Longrightarrow> 0 < n \<Longrightarrow> found_title st' = found_title st"
proof (induction ps arbitrary: n st)
  case Nil
  then show ?case by simp
next
  case (Cons pg ps)
  show ?case
  proof (cases pg)
    case (Inl e)
    with Cons.prems show ?thesis by simp
  next
    case (Inr tx)
    with Cons.prems have "page_loop (Suc n) ps (page_step n tx st) = Inr st'" by simp
    then have "found_title st' = found_title (page_step n tx st)"
      using Cons.IH by simp
    with Cons.prems(2) show ?thesis by (simp add: page_step_later_title)
  qed
qed

lemma extract_doc_title:
  assumes "extract_doc path (Inr tx # ps) = Inr d"
  shows "title d = page_title tx"
proof -
  from assms obtain st where st: "page_loop 0 (Inr tx # ps) init_state = Inr st"
    and d: "title d = found_title st"
    by (auto simp: extract_doc_def split: sum.splits)
  from st have "page_loop (Suc 0) ps (page_step 0 tx init_state) = Inr st" by simp
  then have "found_title st = found_title (page_step 0 tx init_state)"
    by (rule page_loop_title) simp
  with d show ?thesis by (simp add: page_step_first_title)
qed

lemma page_loop_total: "\<exists>st'. page_loop n (map Inr texts) st = Inr st'"
  by (induction texts arbitrary: n st) simp_all

lemma extract_doc_total: "\<exists>d. extract_doc path (map Inr texts) = Inr d"
proof -
  obtain st where "page_loop 0 (map Inr texts) init_state = Inr st"
    using page_loop_total by blast
  then show ?thesis by (simp add: extract_doc_def)
qed

lemma blank_lines_page_title:
  "page_title ''Hi\<newline>\<newline>\<newline>\<newline>\<newline>A Valid Title Here'' = None"
  by code_simp

lemma blank_lines_spec_title:
  "spec_page_title ''Hi\<newline>\<newline>\<newline>\<newline>\<newline>A Valid Title Here'' = Some ''A Valid Title Here''"
  by code_simp

lemma boundary_title:
  "find (\<lambda>l. 10 < length l \<and> length l < 200)
     (map strip (take 5 (split CHR ''\<newline>''
        (strip (join ''\<newline>'' [''Hi'', replicate 201 CHR ''A'', ''A Valid Title Here''])))))
   = Some ''A Valid Title Here''"
  by code_simp

text \<open>
  C2, as the specification states it, fails: the title is not sought among the first five
  non-empty lines. On a first page \<open>"Hi"\<close>, four empty lines, \<open>"A Valid Title Here"\<close> the
  program finds no title, while the first five non-empty trimmed lines hold a line of 18
  characters.
\<close>

theorem C2_title_counterexample:
  "title (projr (extract_doc ''paper.pdf''
      [Inr ''Hi\<newline>\<newline>\<newline>\<newline>\<newline>A Valid Title Here''])) = None
   \<and> spec_page_title ''Hi\<newline>\<newline>\<newline>\<newline>\<newline>A Valid Title Here''
       = Some ''A Valid Title Here''"
proof -
  obtain d where d: "extract_doc ''paper.pdf''
      (map Inr [''Hi\<newline>\<newline>\<newline>\<newline>\<newline>A Valid Title Here'']) = Inr d"
    using extract_doc_total by blast
  then have "title d = None"
    using extract_doc_title [of "''paper.pdf''" _ "[]" d] by (simp add: blank_lines_page_title)
  with d show ?thesis by (simp add: blank_lines_spec_title)
qed

text \<open>
  C2, amended: title detection scans only the first page. Among the first five lines of
  the first page's text with the whitespace at its two ends removed (empty lines
  counted), the first whose trimmed length is strictly greater than 10 and strictly less
  than 200 becomes the title whatever the later pages hold; if none of the five
  qualifies, the title is absent.
\<close>

theorem C2_title_first_five_lines:
  assumes "extract_doc path (Inr page # ps) = Inr d"
  shows "title d =
           find (\<lambda>l. 10 < length l \<and> length l < 200)
             (map strip (take 5 (split CHR ''\<newline>'' (strip page))))"
  using extract_doc_title [OF assms] by (simp add: page_title_def first_title_find)

text \<open>
  For the first-page lines \<open>["Hi", "A"*201, "A Valid Title Here"]\<close> the title is
  \<open>"A Valid Title Here"\<close>.
\<close>

theorem C2_title_boundary_witness:
  "\<exists>d. extract_doc ''paper.pdf''
          [Inr (join ''\<newline>'' [''Hi'', replicate 201 CHR ''A'', ''A Valid Title Here''])] = Inr d
       \<and> title d = Some ''A Valid Title Here''"
proof -
  obtain d where d: "extract_doc ''paper.pdf''
      (map Inr [join ''\<newline>'' [''Hi'', replicate 201 CHR ''A'', ''A Valid Title Here'']]) = Inr d"
    using extract_doc_total by blast
  then have "extract_doc ''paper.pdf''
      (Inr (join ''\<newline>'' [''Hi'', replicate 201 CHR ''A'', ''A Valid Title Here'']) # []) = Inr d"
    by simp
  from C2_title_first_five_lines [OF this] d show ?thesis
    by (simp only: boundary_title list.map) simp
qed

section \<open>Segmentation\<close>

lemma section_lines_append:
  "section_lines (xs @ ys) st = section_lines ys (section_lines xs st)"
  by (induction xs arbitrary: st) simp_all

lemma page_step_sections:
  "(done_sections (page_step n tx st), current_section (page_step n tx st)) =
   section_lines (split CHR ''\<newline>'' tx) (done_sections st, current_section st)"
  by (simp add: page_step_def Let_def split: prod.splits)

lemma page_loop_sections:
  "page_loop n (map Inr texts) st = Inr st' \<Longrightarrow>
   (done_sections st', current_section st') =
   section_lines (concat (map (split CHR ''\<newline>'') texts)) (done_sections st, current_section st)"
proof (induction texts arbitrary: n st)
  case Nil
  then show ?case by simp
next
  case (Cons tx texts)
  then have "page_loop (Suc n) (map Inr texts) (page_step n tx st) = Inr st'" by simp
  from Cons.IH [OF this] show ?case
    by (simp add: section_lines_append page_step_sections)
qed

lemma join_not_empty:
  assumes "ls \<noteq> []" and "list_all (\<lambda>l. l \<noteq> []) ls"
  shows "join sep ls \<noteq> []"
proof (cases ls)
  case Nil
  with assms(1) show ?thesis by simp
next
  case (Cons x xs)
  with assms(2) show ?thesis by (cases xs) simp_all
qed

lemma close_section_filled:
  "list_all (\<lambda>s. content s \<noteq> []) secs \<Longrightarrow> list_all (\<lambda>l. l \<noteq> []) (snd cur) \<Longrightarrow>
   list_all (\<lambda>s. content s \<noteq> []) (close_section secs cur)"
  by (simp add: close_section_def join_not_empty)

lemma section_line_filled:
  assumes "list_all (\<lambda>s. content s \<noteq> []) (fst st)" and "list_all (\<lambda>l. l \<noteq> []) (snd (snd st))"
  shows "list_all (\<lambda>s. content s \<noteq> []) (fst (section_line line st))
       \<and> list_all (\<lambda>l. l \<noteq> []) (snd (snd (section_line line st)))"
  using assms by (simp add: section_line_def Let_def close_section_filled)

lemma section_lines_filled:
  "list_all (\<lambda>s. content s \<noteq> []) (fst st) \<Longrightarrow> list_all (\<lambda>l. l \<noteq> []) (snd (snd st)) \<Longrightarrow>
   list_all (\<lambda>s. content s \<noteq> []) (fst (section_lines ls st))
   \<and> list_all (\<lambda>l. l \<noteq> []) (snd (snd (section_lines ls st)))"
proof (induction ls arbitrary: st)
  case Nil
  then show ?case by simp
next
  case (Cons l ls)
  from section_line_filled [OF Cons.prems, of l] Cons.IH [of "section_line l st"]
  show ?case by simp
qed

lemma extract_doc_sections:
  assumes "extract_doc path (map Inr texts) = Inr d"
  shows "sections d =
           (case section_lines (concat (map (split CHR ''\<newline>'') texts)) ([], (''Beginning'', []))
            of (secs, cur) \<Rightarrow> close_section secs cur)"
proof -
  from assms obtain st where st: "page_loop 0 (map Inr texts) init_state = Inr st"
    and d: "sections d = close_section (done_sections st) (current_section st)"
    by (auto simp: extract_doc_def split: sum.splits)
  from page_loop_sections [OF st] d show ?thesis
    by (simp add: init_state_def split: prod.splits) (metis fst_conv snd_conv)
qed

lemma extract_doc_filled:
  assumes "extract_doc path (map Inr texts) = Inr d"
  shows "list_all (\<lambda>s. content s \<noteq> []) (sections d)"
proof -
  obtain secs cur
    where sc: "section_lines (concat (map (split CHR ''\<newline>'') texts)) ([], (''Beginning'', [])) = (secs, cur)"
    by (cases "section_lines (concat (map (split CHR ''\<newline>'') texts)) ([], (''Beginning'', []))")
  from section_lines_filled [of "([], (''Beginning'', []))" "concat (map (split CHR ''\<newline>'') texts)"] sc
  have "list_all (\<lambda>s. content s \<noteq> []) secs" and "list_all (\<lambda>l. l \<noteq> []) (snd cur)"
    by simp_all
  then have "list_all (\<lambda>s. content s \<noteq> []) (close_section secs cur)"
    by (rule close_section_filled)
  with extract_doc_sections [OF assms] sc show ?thesis by simp
qed

text \<open>
  C5: the transition rule of the segmentation. At a heading line the section being
  filled is appended to the output if it has at least one content line and dropped
  otherwise, and a section with the trimmed line as title is begun; a line that is not
  a heading is appended, trimmed, to the section being filled when it is not empty and
  dropped when it is. The section state runs on from one page to the next, and after the
  last page the section being filled is closed by the same rule. No section of the
  output has an empty content. For the page \<open>"Introduction\nAbstract\nHello world"\<close> the
  output is the one section \<open>Abstract\<close> with content \<open>"Hello world"\<close>.
\<close>

theorem C5_segmentation:
  "(re_match section_pattern (strip l) \<and> c \<noteq> [] \<longrightarrow>
      section_line l (secs, (t, c)) =
      (secs @ [\<lparr>sec_title = t, content = join ''\<newline>'' c\<rparr>], (strip l, [])))
 \<and> (re_match section_pattern (strip l) \<and> c = [] \<longrightarrow>
      section_line l (secs, (t, c)) = (secs, (strip l, [])))
 \<and> (\<not> re_match section_pattern (strip l) \<and> strip l \<noteq> [] \<longrightarrow>
      section_line l (secs, (t, c)) = (secs, (t, c @ [strip l])))
 \<and> (\<not> re_match section_pattern (strip l) \<and> strip l = [] \<longrightarrow>
      section_line l (secs, (t, c)) = (secs, (t, c)))
 \<and> (extract_doc path (map Inr texts) = Inr d \<longrightarrow>
      sections d =
        (case section_lines (concat (map (split CHR ''\<newline>'') texts)) ([], (''Beginning'', []))
         of (done, cur) \<Rightarrow> if snd cur \<noteq> []
              then done @ [\<lparr>sec_title = fst cur, content = join ''\<newline>'' (snd cur)\<rparr>]
              else done)
      \<and> (\<forall>s \<in> set (sections d). content s \<noteq> []))
 \<and> (\<exists>d'. extract_doc path [Inr ''Introduction\<newline>Abstract\<newline>Hello world''] = Inr d'
         \<and> sections d' = [\<lparr>sec_title = ''Abstract'', content = ''Hello world''\<rparr>])"
proof -
  have steps: "section_line l (secs, (t, c')) =
      (if re_match section_pattern (strip l)
       then (if c' \<noteq> [] then secs @ [\<lparr>sec_title = t, content = join ''\<newline>'' c'\<rparr>] else secs,
             (strip l, []))
       else if strip l \<noteq> [] then (secs, (t, c' @ [strip l])) else (secs, (t, c')))" for c'
    by (simp add: section_line_def close_section_def Let_def)
  have whole: "sections d =
        (case section_lines (concat (map (split CHR ''\<newline>'') texts)) ([], (''Beginning'', []))
         of (done, cur) \<Rightarrow> if snd cur \<noteq> []
              then done @ [\<lparr>sec_title = fst cur, content = join ''\<newline>'' (snd cur)\<rparr>]
              else done)
      \<and> (\<forall>s \<in> set (sections d). content s \<noteq> [])"
    if "extract_doc path (map Inr texts) = Inr d"
    using extract_doc_sections [OF that] extract_doc_filled [OF that]
    by (simp add: close_section_def list_all_iff split: prod.splits)
  obtain d' where d': "extract_doc path (map Inr [''Introduction\<newline>Abstract\<newline>Hello world'']) = Inr d'"
    using extract_doc_total by blast
  have "section_lines (concat (map (split CHR ''\<newline>'') [''Introduction\<newline>Abstract\<newline>Hello world'']))
          ([], (''Beginning'', [])) = ([], (''Abstract'', [''Hello world'']))"
    by code_simp
  with extract_doc_sections [OF d']
  have "sections d' = [\<lparr>sec_title = ''Abstract'', content = ''Hello world''\<rparr>]"
    by (simp add: close_section_def)
  with d' have example: "\<exists>d'. extract_doc path [Inr ''Introduction\<newline>Abstract\<newline>Hello world''] = Inr d'
         \<and> sections d' = [\<lparr>sec_title = ''Abstract'', content = ''Hello world''\<rparr>]"
    by auto
  have s1: "re_match section_pattern (strip l) \<and> c \<noteq> [] \<longrightarrow>
      section_line l (secs, (t, c)) =
      (secs @ [\<lparr>sec_title = t, content = join ''\<newline>'' c\<rparr>], (strip l, []))"
    by (auto simp: steps)
  have s2: "re_match section_pattern (strip l) \<and> c = [] \<longrightarrow>
      section_line l (secs, (t, c)) = (secs, (strip l, []))"
    by (auto simp: steps)
  have s3: "\<not> re_match section_pattern (strip l) \<and> strip l \<noteq> [] \<longrightarrow>
      section_line l (secs, (t, c)) = (secs, (t, c @ [strip l]))"
    by (auto simp: steps)
  have s4: "\<not> re_match section_pattern (strip l) \<and> strip l = [] \<longrightarrow>
      section_line l (secs, (t, c)) = (secs, (t, c))"
    by (auto simp: steps)
  from s1 s2 s3 s4 whole example show ?thesis by blast
qed

text \<open>
  The four rules at concrete lines, and a section whose heading ends one page and whose
  content begins the next.
\<close>

theorem C5_segmentation_witness:
  "section_line ''  2. Methods '' ([], (''Beginning'', [''Some text''])) =
     ([\<lparr>sec_title = ''Beginning'', content = ''Some text''\<rparr>], (''2. Methods'', []))
 \<and> section_line ''Abstract'' ([], (''Introduction'', [])) = ([], (''Abstract'', []))
 \<and> section_line ''  Hello world '' ([], (''Abstract'', [])) = ([], (''Abstract'', [''Hello world'']))
 \<and> section_line ''   '' ([], (''Abstract'', [''Hello world''])) = ([], (''Abstract'', [''Hello world'']))
 \<and> (\<exists>d. extract_doc ''paper.pdf'' (map Inr [''Introduction\<newline>Abstract'', ''Hello world'']) = Inr d
        \<and> sections d = [\<lparr>sec_title = ''Abstract'', content = ''Hello world''\<rparr>])"
proof -
  obtain d where d:
    "extract_doc ''paper.pdf'' (map Inr [''Introduction\<newline>Abstract'', ''Hello world'']) = Inr d"
    using extract_doc_total by blast
  have run: "section_lines
      (concat (map (split CHR ''\<newline>'') [''Introduction\<newline>Abstract'', ''Hello world'']))
      ([], (''Beginning'', [])) = ([], (''Abstract'', [''Hello world'']))"
    by code_simp
  have l1: "strip ''  2. Methods '' = ''2. Methods''" and m1: "re_match section_pattern ''2. Methods''"
    by code_simp+
  have l2: "strip ''Abstract'' = ''Abstract''" and m2: "re_match section_pattern ''Abstract''"
    by code_simp+
  have l3: "strip ''  Hello world '' = ''Hello world''"
    and m3: "\<not> re_match section_pattern ''Hello world''"
    by code_simp+
  have l4: "strip ''   '' = []" and m4: "\<not> re_match section_pattern []"
    by code_simp+
  from C5_segmentation [of "''  2. Methods ''" "[''Some text'']" "[]" "''Beginning''"
      "''paper.pdf''" "[''Introduction\<newline>Abstract'', ''Hello world'']" d] l1 m1 d run
  have w1: "section_line ''  2. Methods '' ([], (''Beginning'', [''Some text''])) =
     ([\<lparr>sec_title = ''Beginning'', content = ''Some text''\<rparr>], (''2. Methods'', []))"
    and w5: "sections d = [\<lparr>sec_title = ''Abstract'', content = ''Hello world''\<rparr>]"
    by simp_all
  from C5_segmentation [of "''Abstract''" "[]" "[]" "''Introduction''"] l2 m2
  have w2: "section_line ''Abstract'' ([], (''Introduction'', [])) = ([], (''Abstract'', []))"
    by simp
  from C5_segmentation [of "''  Hello world ''" "[]" "[]" "''Abstract''"] l3 m3
  have w3: "section_line ''  Hello world '' ([], (''Abstract'', [])) =
      ([], (''Abstract'', [''Hello world'']))"
    by simp
  from C5_segmentation [of "''   ''" "[''Hello world'']" "[]" "''Abstract''"] l4 m4
  have w4: "section_line ''   '' ([], (''Abstract'', [''Hello world''])) =
      ([], (''Abstract'', [''Hello world'']))"
    by simp
  from w1 w2 w3 w4 w5 d show ?thesis by blast
qed

section \<open>The cache\<close>

lemma split_not_Nil: "split sep s \<noteq> []"
  by (induction s) (simp_all split: list.splits)

lemma download_arxiv_cached:
  "exists w (path_join cache_dir (arxiv_filename arxiv_id)) \<Longrightarrow>
   download_arxiv ev arxiv_id cache_dir w = (Inr (path_join cache_dir (arxiv_filename arxiv_id)), w)"
  by (simp add: download_arxiv_def arxiv_filename_def Let_def)

lemma download_arxiv_path:
  assumes "download_arxiv ev arxiv_id cache_dir w = (Inr p, w1)"
  shows "p = path_join cache_dir (arxiv_filename arxiv_id) \<and> exists w1 p"
  using assms
  by (auto simp: download_arxiv_def arxiv_filename_def Let_def exists_def
      split: if_splits sum.splits list.splits)

lemma download_url_cached:
  "exists w (path_join cache_dir (url_filename (hash ev) url)) \<Longrightarrow>
   download_url ev url cache_dir w = (Inr (path_join cache_dir (url_filename (hash ev) url)), w)"
  by (simp add: download_url_def Let_def)

lemma download_url_fetched:
  assumes "download_url ev url cache_dir w = (Inr p, w1)"
    and "\<not> exists w (path_join cache_dir (url_filename (hash ev) url))"
  shows "p = path_join cache_dir (url_filename (hash ev) url) \<and> exists w1 p \<and>
         (\<exists>r. requests_get ev url = Inr r \<and> files w1 p = Some (resp_content r)) \<and>
         net w1 = net w @ [HttpGet url]"
  using assms
  by (auto simp: download_url_def Let_def exists_def split: if_splits sum.splits)

lemma url_filename_pdf:
  "endswith (last (split CHR ''/'' url)) ''.pdf'' \<Longrightarrow>
   url_filename h url = last (split CHR ''/'' url)"
  by (simp add: url_filename_def Let_def)

lemma url_filename_hashed:
  "\<not> endswith (last (split CHR ''/'' url)) ''.pdf'' \<Longrightarrow>
   url_filename h url = decimal (nat (h url AND 0xFFFFFFFF)) @ ''.pdf''"
  by (simp add: url_filename_def Let_def)

lemma url_filename_endswith_pdf: "endswith (url_filename h url) ''.pdf''"
  by (simp add: url_filename_def Let_def endswith_def suffix_def)

lemma sample_arxiv_id: "strip (replace ''arxiv:'' [] (lower ''arXiv:1706.03762'')) = ''1706.03762''"
  by code_simp

lemma sample_arxiv_path:
  "path_join ''/tmp/paper_cache'' (arxiv_filename ''arXiv:1706.03762'') =
   ''/tmp/paper_cache/arxiv_1706.03762.pdf''"
  by code_simp

lemma sample_arxiv_first:
  "download_arxiv sample_env ''arXiv:1706.03762'' ''/tmp/paper_cache'' empty_world =
   (Inr ''/tmp/paper_cache/arxiv_1706.03762.pdf'',
    \<lparr>files = [''/tmp/paper_cache/arxiv_1706.03762.pdf'' \<mapsto> ''%PDF attention''],
     dirs = {},
     net = [IndexQuery ''1706.03762'', PdfDownload ''1706.03762v7'']\<rparr>)"
  using sample_arxiv_path
  by (simp add: download_arxiv_def sample_arxiv_id arxiv_filename_def sample_env_def
      empty_world_def exists_def Let_def)

text \<open>
  C7: when one resolution of an arXiv identifier has succeeded, it has left the cache file
  named after the normalized identifier; and whenever that file exists, resolving the same
  identifier returns the same path and leaves the world as it was: no index query, no
  download, no file written.
\<close>

theorem C7_arxiv_second_resolution:
  assumes "download_arxiv ev arxiv_id cache_dir w = (Inr p, w1)"
    and "exists w2 (path_join cache_dir (arxiv_filename arxiv_id))"
  shows "download_arxiv ev arxiv_id cache_dir w2 = (Inr p, w2)
       \<and> net (snd (download_arxiv ev arxiv_id cache_dir w2)) = net w2
       \<and> exists w1 (path_join cache_dir (arxiv_filename arxiv_id))"
  using download_arxiv_path [OF assms(1)] download_arxiv_cached [OF assms(2), of ev] by auto

theorem C7_arxiv_second_resolution_witness:
  "download_arxiv sample_env ''arXiv:1706.03762'' ''/tmp/paper_cache''
     \<lparr>files = [''/tmp/paper_cache/arxiv_1706.03762.pdf'' \<mapsto> ''%PDF attention''],
      dirs = {},
      net = [IndexQuery ''1706.03762'', PdfDownload ''1706.03762v7'']\<rparr> =
   (Inr ''/tmp/paper_cache/arxiv_1706.03762.pdf'',
    \<lparr>files = [''/tmp/paper_cache/arxiv_1706.03762.pdf'' \<mapsto> ''%PDF attention''],
     dirs = {},
     net = [IndexQuery ''1706.03762'', PdfDownload ''1706.03762v7'']\<rparr>)"
proof -
  have "exists \<lparr>files = [''/tmp/paper_cache/arxiv_1706.03762.pdf'' \<mapsto> ''%PDF attention''],
      dirs = {},
      net = [IndexQuery ''1706.03762'', PdfDownload ''1706.03762v7'']\<rparr>
     (path_join ''/tmp/paper_cache'' (arxiv_filename ''arXiv:1706.03762''))"
    by (simp add: sample_arxiv_path exists_def)
  from C7_arxiv_second_resolution [OF sample_arxiv_first this] show ?thesis by simp
qed

lemma sample_url_names:
  "last (split CHR ''/'' ''http://a.example/paper.pdf'') = ''paper.pdf''"
  "last (split CHR ''/'' ''http://b.example/paper.pdf'') = ''paper.pdf''"
  "endswith ''paper.pdf'' ''.pdf''"
  "path_join ''/tmp/paper_cache'' ''paper.pdf'' = ''/tmp/paper_cache/paper.pdf''"
  by code_simp+

lemma sample_url_first:
  "download_url sample_env ''http://a.example/paper.pdf'' ''/tmp/paper_cache'' empty_world =
   (Inr ''/tmp/paper_cache/paper.pdf'',
    \<lparr>files = [''/tmp/paper_cache/paper.pdf'' \<mapsto> ''%PDF from http://a.example/paper.pdf''],
     dirs = {},
     net = [HttpGet ''http://a.example/paper.pdf'']\<rparr>)"
  by (simp add: download_url_def url_filename_pdf sample_url_names sample_env_def
      empty_world_def exists_def Let_def)

lemma sample_query_names:
  "spec_last_path_segment ''http://a.example/paper.pdf?v=1'' = ''paper.pdf''"
  "spec_last_path_segment ''http://bb.example/paper.pdf?v=1'' = ''paper.pdf''"
  "\<not> endswith (last (split CHR ''/'' ''http://a.example/paper.pdf?v=1'')) ''.pdf''"
  "\<not> endswith (last (split CHR ''/'' ''http://bb.example/paper.pdf?v=1'')) ''.pdf''"
  "path_join ''/tmp/paper_cache'' ''4294967266.pdf'' = ''/tmp/paper_cache/4294967266.pdf''"
  "path_join ''/tmp/paper_cache'' ''4294967265.pdf'' = ''/tmp/paper_cache/4294967265.pdf''"
  by code_simp+

lemma sample_query_decimal:
  "decimal 4294967266 = ''4294967266''"
  "decimal 4294967265 = ''4294967265''"
  by (simp_all add: decimal.simps)

lemma sample_query_filenames:
  "url_filename (hash sample_env) ''http://a.example/paper.pdf?v=1'' = ''4294967266.pdf''"
  "url_filename (hash sample_env) ''http://bb.example/paper.pdf?v=1'' = ''4294967265.pdf''"
proof -
  have h1: "hash sample_env ''http://a.example/paper.pdf?v=1'' = - 30"
    and h2: "hash sample_env ''http://bb.example/paper.pdf?v=1'' = - 31"
    by (simp_all add: sample_env_def)
  have n1: "nat ((- 30 :: int) AND 0xFFFFFFFF) = 4294967266"
    and n2: "nat ((- 31 :: int) AND 0xFFFFFFFF) = 4294967265"
    by simp_all
  from url_filename_hashed [OF sample_query_names(3), of "hash sample_env"]
  show "url_filename (hash sample_env) ''http://a.example/paper.pdf?v=1'' = ''4294967266.pdf''"
    by (simp only: h1 n1 sample_query_decimal(1)) simp
  from url_filename_hashed [OF sample_query_names(4), of "hash sample_env"]
  show "url_filename (hash sample_env) ''http://bb.example/paper.pdf?v=1'' = ''4294967265.pdf''"
    by (simp only: h2 n2 sample_query_decimal(2)) simp
qed

lemma sample_query_first:
  "download_url sample_env ''http://a.example/paper.pdf?v=1'' ''/tmp/paper_cache'' empty_world =
   (Inr ''/tmp/paper_cache/4294967266.pdf'',
    \<lparr>files = [''/tmp/paper_cache/4294967266.pdf'' \<mapsto> ''%PDF from http://a.example/paper.pdf?v=1''],
     dirs = {},
     net = [HttpGet ''http://a.example/paper.pdf?v=1'']\<rparr>)"
  by (simp add: download_url_def sample_query_filenames sample_query_names exists_def
      empty_world_def Let_def) (simp add: sample_env_def)

lemma sample_query_second:
  "download_url sample_env ''http://bb.example/paper.pdf?v=1'' ''/tmp/paper_cache''
     \<lparr>files = [''/tmp/paper_cache/4294967266.pdf'' \<mapsto> ''%PDF from http://a.example/paper.pdf?v=1''],
      dirs = {},
      net = [HttpGet ''http://a.example/paper.pdf?v=1'']\<rparr> =
   (Inr ''/tmp/paper_cache/4294967265.pdf'',
    \<lparr>files = [''/tmp/paper_cache/4294967266.pdf'' \<mapsto> ''%PDF from http://a.example/paper.pdf?v=1'',
              ''/tmp/paper_cache/4294967265.pdf'' \<mapsto> ''%PDF from http://bb.example/paper.pdf?v=1''],
     dirs = {},
     net = [HttpGet ''http://a.example/paper.pdf?v=1'', HttpGet ''http://bb.example/paper.pdf?v=1'']\<rparr>)"
  by (simp add: download_url_def sample_query_filenames sample_query_names exists_def Let_def)
    (simp add: sample_env_def)

text \<open>
  C10, as stated, fails: the program does not take the last segment of the URL's path
  but everything after the last \<open>/\<close>, the query included. The two distinct URLs
  \<open>http://a.example/paper.pdf?v=1\<close> and \<open>http://bb.example/paper.pdf?v=1\<close> have the same last
  path segment \<open>paper.pdf\<close>, yet their cache files are named from their hashes, and with
  a hash that tells them apart the second is fetched after the first.
\<close>

theorem C10_query_counterexample:
  "''http://a.example/paper.pdf?v=1'' \<noteq> ''http://bb.example/paper.pdf?v=1''
 \<and> spec_last_path_segment ''http://a.example/paper.pdf?v=1'' = ''paper.pdf''
 \<and> spec_last_path_segment ''http://bb.example/paper.pdf?v=1'' = ''paper.pdf''
 \<and> path_join ''/tmp/paper_cache'' (url_filename (hash sample_env) ''http://a.example/paper.pdf?v=1'')
     \<noteq> path_join ''/tmp/paper_cache'' (url_filename (hash sample_env) ''http://bb.example/paper.pdf?v=1'')
 \<and> net (snd (download_url sample_env ''http://bb.example/paper.pdf?v=1'' ''/tmp/paper_cache''
        (snd (download_url sample_env ''http://a.example/paper.pdf?v=1'' ''/tmp/paper_cache''
               empty_world)))) =
     [HttpGet ''http://a.example/paper.pdf?v=1'', HttpGet ''http://bb.example/paper.pdf?v=1'']"
  by (simp add: sample_query_names sample_query_filenames sample_query_first sample_query_second)

text \<open>
  C10, amended: URL cache keys are not injective. The cache path of a URL whose text
  after its last \<open>/\<close> (query and fragment included) ends in \<open>.pdf\<close> is that text in the
  cache directory, so two URLs for which it is equal (for instance, differing only in
  host) have the same cache path. Once the first has been fetched (its cache file was
  not there, and resolving it succeeded), resolving the second returns the same path and
  leaves the world as it was (no fetch), and the file at that path holds the bytes that
  came from the first URL.
\<close>

theorem C10_url_cache_collision:
  assumes "last (split CHR ''/'' url1) = last (split CHR ''/'' url2)"
    and "endswith (last (split CHR ''/'' url1)) ''.pdf''"
    and "\<not> exists w (path_join cache_dir (url_filename (hash ev) url1))"
    and "download_url ev url1 cache_dir w = (Inr p, w1)"
  shows "path_join cache_dir (url_filename (hash ev) url1) =
           path_join cache_dir (url_filename (hash ev) url2)
       \<and> download_url ev url2 cache_dir w1 = (Inr p, w1)
       \<and> net (snd (download_url ev url2 cache_dir w1)) = net w1
       \<and> (\<exists>r. requests_get ev url1 = Inr r \<and> files w1 p = Some (resp_content r))"
proof -
  from assms(1,2) have same: "url_filename (hash ev) url2 = url_filename (hash ev) url1"
    by (simp add: url_filename_pdf)
  from download_url_fetched [OF assms(4,3)]
  have p: "p = path_join cache_dir (url_filename (hash ev) url1)" and ex: "exists w1 p"
    and by1: "\<exists>r. requests_get ev url1 = Inr r \<and> files w1 p = Some (resp_content r)"
    by auto
  from ex p same have "exists w1 (path_join cache_dir (url_filename (hash ev) url2))" by simp
  from download_url_cached [OF this] p same by1 show ?thesis by simp
qed

theorem C10_url_cache_collision_witness:
  "''http://a.example/paper.pdf'' \<noteq> ''http://b.example/paper.pdf''
 \<and> download_url sample_env ''http://b.example/paper.pdf'' ''/tmp/paper_cache''
     \<lparr>files = [''/tmp/paper_cache/paper.pdf'' \<mapsto> ''%PDF from http://a.example/paper.pdf''],
      dirs = {},
      net = [HttpGet ''http://a.example/paper.pdf'']\<rparr> =
   (Inr ''/tmp/paper_cache/paper.pdf'',
    \<lparr>files = [''/tmp/paper_cache/paper.pdf'' \<mapsto> ''%PDF from http://a.example/paper.pdf''],
     dirs = {},
     net = [HttpGet ''http://a.example/paper.pdf'']\<rparr>)"
proof -
  have h1: "last (split CHR ''/'' ''http://a.example/paper.pdf'') =
            last (split CHR ''/'' ''http://b.example/paper.pdf'')"
    and h2: "endswith (last (split CHR ''/'' ''http://a.example/paper.pdf'')) ''.pdf''"
    by (simp_all add: sample_url_names)
  have h3: "\<not> exists empty_world
      (path_join ''/tmp/paper_cache'' (url_filename (hash sample_env) ''http://a.example/paper.pdf''))"
    by (simp add: exists_def empty_world_def)
  from C10_url_cache_collision [OF h1 h2 h3 sample_url_first] show ?thesis by simp
qed

text \<open>
  C3, on the code: the name of the cache file of a URL whose last segment does not end in
  \<open>.pdf\<close> is made from \<open>hash(url)\<close>. Two interpreters whose string hashes differ on
  \<open>"http://example.com/paper"\<close> (here 1 and 2) name its cache file differently.
\<close>

theorem C3_filename_follows_hash:
  "url_filename (\<lambda>u. 1) ''http://example.com/paper'' = ''1.pdf''
 \<and> url_filename (\<lambda>u. 2) ''http://example.com/paper'' = ''2.pdf''"
proof -
  have "\<not> endswith (last (split CHR ''/'' ''http://example.com/paper'')) ''.pdf''"
    by code_simp
  moreover have "decimal (nat (1 AND 0xFFFFFFFF)) = ''1''" "decimal (nat (2 AND 0xFFFFFFFF)) = ''2''"
    by (simp_all add: decimal.simps)
  ultimately show ?thesis by (simp add: url_filename_hashed)
qed

section \<open>\<open>main\<close>: dispatch and the error envelope\<close>

lemma sample_cache_dir: "path_join (gettempdir sample_env) ''paper_cache'' = ''/tmp/paper_cache''"
proof -
  have "path_join ''/tmp'' ''paper_cache'' = ''/tmp/paper_cache''" by code_simp
  then show ?thesis by (simp add: sample_env_def)
qed

lemma sample_kinds:
  "lower ''repository'' = ''repository''"
  "lower ''arxiv'' = ''arxiv''"
  "lower ''ArXiv'' = ''arxiv''"
  "lower ''LOCAL'' = ''local''"
  "lower ''Url'' = ''url''"
  "lower ''local'' = ''local''"
  by code_simp+







lemma main_run:
  "3 \<le> length argv \<Longrightarrow>
   makedirs ev (path_join (gettempdir ev) ''paper_cache'') w = Inr w0 \<Longrightarrow>
   main ev argv w =
   report ev (lower (argv ! 1)) (argv ! 2)
     (source_path ev (lower (argv ! 1)) (argv ! 2) (path_join (gettempdir ev) ''paper_cache'') w0)"
  by (simp add: main_def Let_def)


lemma local_directory:
  "source \<in> dirs w \<Longrightarrow> source_path ev ''local'' source cache_dir w = (Inr source, w)"
  by (simp add: source_path_def exists_def)




lemma page_loop_failing_page:
  "page_loop n (map Inr texts @ Inl e # rest) st = Inl e"
  by (induction texts arbitrary: n st) simp_all

lemma extract_doc_failing_page:
  "extract_doc path (map Inr texts @ Inl e # rest) = Inl e"
  by (simp add: extract_doc_def page_loop_failing_page)

text \<open>
  C8: when the run has reached the pipeline (two arguments or more, and the cache
  directory made sure of) and a stage fails with message \<open>e\<close> (the resolver; or, the
  resolver having returned a path, the opening of the document; or \<open>get_text\<close> on some
  page after the pages before it have been read and segmented), the standard output is
  the one JSON object \<open>{"error": e}\<close>, whose only key is \<open>error\<close> (so none of \<open>title\<close>,
  \<open>pages\<close>, \<open>text\<close>, \<open>sections\<close>), the exit status is 1 and no exception is left
  uncaught.
\<close>

theorem C8_error_envelope:
  assumes "3 \<le> length argv"
    and "makedirs ev (path_join (gettempdir ev) ''paper_cache'') w = Inr w0"
    and "source_path ev (lower (argv ! 1)) (argv ! 2) (path_join (gettempdir ev) ''paper_cache'') w0
           = (r, w1)"
    and "r = Inl e
       \<or> (\<exists>p. r = Inr p \<and> fitz_open ev w1 p = Inl e)
       \<or> (\<exists>p texts rest. r = Inr p \<and> fitz_open ev w1 p = Inr (map Inr texts @ Inl e # rest))"
  shows "fst (main ev argv w) =
           \<lparr>stdout = [JObject [(''error'', JString e)]], exit_status = 1, uncaught = None\<rparr>
       \<and> map json_keys (stdout (fst (main ev argv w))) = [[''error'']]"
proof -
  have run: "main ev argv w = report ev (lower (argv ! 1)) (argv ! 2) (r, w1)"
    using assms(1,2,3) by (simp add: main_run)
  from assms(4) have "fst (report ev (lower (argv ! 1)) (argv ! 2) (r, w1)) =
      \<lparr>stdout = [error_json e], exit_status = 1, uncaught = None\<rparr>"
  proof (elim disjE exE conjE)
    assume "r = Inl e"
    then show ?thesis by (simp add: report_def)
  next
    fix p assume "r = Inr p" and "fitz_open ev w1 p = Inl e"
    then show ?thesis by (simp add: report_def extract_text_def)
  next
    fix p texts rest
    assume "r = Inr p" and "fitz_open ev w1 p = Inr (map Inr texts @ Inl e # rest)"
    then show ?thesis by (simp add: report_def extract_text_def extract_doc_failing_page)
  qed
  with run show ?thesis by (simp add: error_json_def json_keys_def)
qed

text \<open>
  A local path that is a directory exists, so the failure is the reader's.
\<close>

theorem C8_error_envelope_witness:
  "fst (main sample_env [''download_paper.py'', ''local'', ''papers'']
          \<lparr>files = Map.empty, dirs = {''/tmp/paper_cache'', ''papers''}, net = []\<rparr>) =
     \<lparr>stdout = [JObject [(''error'', JString ''no such file: papers'')]], exit_status = 1,
      uncaught = None\<rparr>
 \<and> map json_keys (stdout (fst (main sample_env [''download_paper.py'', ''local'', ''papers'']
          \<lparr>files = Map.empty, dirs = {''/tmp/paper_cache'', ''papers''}, net = []\<rparr>))) = [[''error'']]"
proof -
  have h1: "3 \<le> length [''download_paper.py'', ''local'', ''papers'']" by simp
  have h2: "makedirs sample_env (path_join (gettempdir sample_env) ''paper_cache'')
        \<lparr>files = Map.empty, dirs = {''/tmp/paper_cache'', ''papers''}, net = []\<rparr> =
      Inr \<lparr>files = Map.empty, dirs = {''/tmp/paper_cache'', ''papers''}, net = []\<rparr>"
    by (simp add: sample_cache_dir makedirs_def)
  have h3: "source_path sample_env (lower ([''download_paper.py'', ''local'', ''papers''] ! 1))
        ([''download_paper.py'', ''local'', ''papers''] ! 2)
        (path_join (gettempdir sample_env) ''paper_cache'')
        \<lparr>files = Map.empty, dirs = {''/tmp/paper_cache'', ''papers''}, net = []\<rparr> =
      (Inr ''papers'', \<lparr>files = Map.empty, dirs = {''/tmp/paper_cache'', ''papers''}, net = []\<rparr>)"
    by (simp add: sample_kinds local_directory)
  have "fitz_open sample_env \<lparr>files = Map.empty, dirs = {''/tmp/paper_cache'', ''papers''}, net = []\<rparr>
          ''papers'' = Inl ''no such file: papers''"
    by (simp add: sample_env_def)
  then have h4: "Inr ''papers'' = Inl ''no such file: papers''
       \<or> (\<exists>p. Inr ''papers'' = Inr p \<and>
            fitz_open sample_env
              \<lparr>files = Map.empty, dirs = {''/tmp/paper_cache'', ''papers''}, net = []\<rparr> p
              = Inl ''no such file: papers'')
       \<or> (\<exists>p texts rest. Inr ''papers'' = Inr p \<and>
            fitz_open sample_env
              \<lparr>files = Map.empty, dirs = {''/tmp/paper_cache'', ''papers''}, net = []\<rparr> p
              = Inr (map Inr texts @ Inl ''no such file: papers'' # rest))"
    by simp
  from C8_error_envelope [OF h1 h2 h3 h4] show ?thesis .
qed

section \<open>Heading lines\<close>

text \<open>
  The matcher is sound and complete for the language of the expression: what is left
  after a match is the subject without a prefix in the language.
\<close>

lemma star_rests_set:
  "t \<in> set (star_rests c s) \<longleftrightarrow> (\<exists>p. s = p @ t \<and> list_all (cmatch c) p)"
proof (induction s)
  case Nil
  then show ?case by auto
next
  case (Cons x xs)
  show ?case
  proof (cases "cmatch c x")
    case True
    have "(\<exists>p. x # xs = p @ t \<and> list_all (cmatch c) p) \<longleftrightarrow>
          t = x # xs \<or> (\<exists>p. xs = p @ t \<and> list_all (cmatch c) p)"
      using True by (auto simp: Cons_eq_append_conv)
    with True Cons.IH show ?thesis by auto
  next
    case False
    have "(\<exists>p. x # xs = p @ t \<and> list_all (cmatch c) p) \<longleftrightarrow> t = x # xs"
      using False by (auto simp: Cons_eq_append_conv)
    with False show ?thesis by auto
  qed
qed

lemma lower_length: "lower p = lower w \<Longrightarrow> length p = length w"
  unfolding lower_def by (rule map_eq_imp_length_eq)

lemma matches_Str:
  "t \<in> set (matches (Str w) s) \<longleftrightarrow> (\<exists>p. lower p = lower w \<and> s = p @ t)"
proof
  assume "t \<in> set (matches (Str w) s)"
  then have "length w \<le> length s" and "lower (take (length w) s) = lower w"
    and "t = drop (length w) s"
    by (simp_all split: if_splits)
  then have "lower (take (length w) s) = lower w \<and> s = take (length w) s @ t" by simp
  then show "\<exists>p. lower p = lower w \<and> s = p @ t" by blast
next
  assume "\<exists>p. lower p = lower w \<and> s = p @ t"
  then obtain p where p: "lower p = lower w" "s = p @ t" by blast
  from p(1) have "length p = length w" by (rule lower_length)
  with p show "t \<in> set (matches (Str w) s)" by simp
qed

lemma matches_lang: "t \<in> set (matches r s) \<longleftrightarrow> (\<exists>p \<in> lang r. s = p @ t)"
proof (induction r arbitrary: s t)
  case (Str w)
  show ?case using matches_Str [of t w s] by auto
next
  case (Star c)
  show ?case by (auto simp: star_rests_set)
next
  case (Plus c)
  show ?case
  proof (cases s)
    case Nil
    then show ?thesis by auto
  next
    case (Cons x xs)
    have "(\<exists>p. p \<noteq> [] \<and> list_all (cmatch c) p \<and> x # xs = p @ t) \<longleftrightarrow>
          cmatch c x \<and> (\<exists>q. xs = q @ t \<and> list_all (cmatch c) q)"
      by (auto simp: Cons_eq_append_conv)
    with Cons show ?thesis by (auto simp: star_rests_set)
  qed
next
  case (Opt r)
  then show ?case by auto
next
  case (Seq r1 r2)
  have "t \<in> set (matches (Seq r1 r2) s) \<longleftrightarrow> (\<exists>m \<in> set (matches r1 s). t \<in> set (matches r2 m))"
    by auto
  also have "\<dots> \<longleftrightarrow> (\<exists>m. (\<exists>p \<in> lang r1. s = p @ m) \<and> (\<exists>q \<in> lang r2. m = q @ t))"
    using Seq.IH by blast
  also have "\<dots> \<longleftrightarrow> (\<exists>u \<in> lang r1. \<exists>v \<in> lang r2. s = u @ v @ t)"
    by blast
  also have "\<dots> \<longleftrightarrow> (\<exists>p \<in> lang (Seq r1 r2). s = p @ t)"
    by auto blast+
  finally show ?case .
next
  case (Alt r1 r2)
  then show ?case by auto
qed

lemma re_match_lang: "re_match r s \<longleftrightarrow> (\<exists>p \<in> lang r. \<exists>t. s = p @ t)"
proof -
  have "re_match r s \<longleftrightarrow> (\<exists>t. t \<in> set (matches r s))"
    by (cases "matches r s") (auto simp: re_match_def)
  then show ?thesis by (auto simp: matches_lang)
qed

lemma lower_char_dot: "lower_char c = CHR ''.'' \<longleftrightarrow> c = CHR ''.''"
proof
  assume a: "lower_char c = CHR ''.''"
  define n where "n = (of_char c :: nat)"
  show "c = CHR ''.''"
  proof (cases "(65 \<le> n \<and> n \<le> 90) \<or> (192 \<le> n \<and> n \<le> 222 \<and> n \<noteq> 215)")
    case True
    then have "lower_char c = char_of (n + 32)"
      unfolding lower_char_def Let_def n_def by (simp only: if_True)
    with a have "char_of (n + 32) = CHR ''.''" by (simp only:)
    then have "(of_char (char_of (n + 32)) :: nat) = of_char (CHR ''.'')" by (simp only:)
    then have "(n + 32) mod 256 = 46" by simp
    moreover from True have "n + 32 < 256" by linarith
    ultimately have "n + 32 = 46" by simp
    with True show ?thesis by linarith
  next
    case False
    then have "lower_char c = c"
      unfolding lower_char_def Let_def n_def by (simp only: if_False)
    with a show ?thesis by (simp only:)
  qed
next
  assume "c = CHR ''.''"
  moreover have "lower_char (CHR ''.'') = CHR ''.''" by code_simp
  ultimately show "lower_char c = CHR ''.''" by (simp only:)
qed

lemma lower_dot: "lower v = lower ''.'' \<longleftrightarrow> v = ''.''"
proof -
  have dot: "lower_char CHR ''.'' = CHR ''.''" by code_simp
  show ?thesis by (cases v) (auto simp: lower_def dot lower_char_dot)
qed

lemma lower_eq_append:
  "lower k = a @ b \<longleftrightarrow> (\<exists>u v. k = u @ v \<and> lower u = a \<and> lower v = b)"
  by (auto simp: lower_def map_eq_append_conv)

lemma lower_words:
  "lower ''abstract'' = ''abstract''"
  "lower ''introduction'' = ''introduction''"
  "lower ''related'' = ''related''"
  "lower ''work'' = ''work''"
  "lower ''background'' = ''background''"
  "lower ''methodology'' = ''methodology''"
  "lower ''method'' = ''method''"
  "lower ''methods'' = ''methods''"
  "lower ''approach'' = ''approach''"
  "lower ''experiment'' = ''experiment''"
  "lower ''result'' = ''result''"
  "lower ''discussion'' = ''discussion''"
  "lower ''conclusion'' = ''conclusion''"
  "lower ''conclusions'' = ''conclusions''"
  "lower ''references'' = ''references''"
  "lower ''acknowledgement'' = ''acknowledgement''"
  "lower ''appendix'' = ''appendix''"
  "lower ''s'' = ''s''"
  by code_simp+

lemma cmatch_eta: "cmatch Digit = is_digit" "cmatch Space = is_space"
  by (rule ext, simp)+

lemma lang_number_prefix: "p \<in> lang number_prefix \<longleftrightarrow> numbering p"
proof -
  have "p \<in> lang number_prefix \<longleftrightarrow>
        (\<exists>ds r. p = ds @ r \<and> ds \<noteq> [] \<and> list_all is_digit ds \<and>
           (\<exists>dot ws. r = dot @ ws \<and> (dot = [] \<or> dot = ''.'') \<and> list_all is_space ws))"
    by (simp add: number_prefix_def cmatch_eta lower_dot)
  also have "\<dots> \<longleftrightarrow> numbering p"
    unfolding numbering_def by blast
  finally show ?thesis .
qed

lemma lang_plural:
  "k \<in> lang (Seq (Str w) (Opt (Str ''s''))) \<longleftrightarrow> lower k = lower w \<or> lower k = lower w @ ''s''"
proof -
  have "k \<in> lang (Seq (Str w) (Opt (Str ''s''))) \<longleftrightarrow>
        (\<exists>u v. k = u @ v \<and> lower u = lower w \<and> (v = [] \<or> lower v = ''s''))"
    by (simp add: lower_words)
  also have "\<dots> \<longleftrightarrow> lower k = lower w \<or> (\<exists>u v. k = u @ v \<and> lower u = lower w \<and> lower v = ''s'')"
    by auto
  finally show ?thesis by (simp add: lower_eq_append)
qed

lemma lang_related:
  "k \<in> lang (Seq (Str ''related'') (Seq (Star Space) (Str ''work''))) \<longleftrightarrow>
   (\<exists>a ws b. k = a @ ws @ b \<and> lower a = ''related'' \<and> list_all is_space ws \<and> lower b = ''work'')"
  by (simp add: lower_words cmatch_eta) blast

lemma lang_word: "k \<in> lang (Str w) \<longleftrightarrow> lower k = lower w"
  by simp

lemma lang_Alt: "k \<in> lang (Alt r r') \<longleftrightarrow> k \<in> lang r \<or> k \<in> lang r'"
  by simp

lemma lang_section_words: "k \<in> lang section_words \<longleftrightarrow> section_word k"
proof -
  have "k \<in> lang section_words \<longleftrightarrow>
      lower k = ''abstract'' \<or> lower k = ''introduction'' \<or>
      (\<exists>a ws b. k = a @ ws @ b \<and> lower a = ''related'' \<and> list_all is_space ws \<and> lower b = ''work'') \<or>
      lower k = ''background'' \<or> lower k = ''methodology'' \<or> lower k = ''method'' \<or>
      lower k = ''methods'' \<or> lower k = ''approach'' \<or>
      (lower k = ''experiment'' \<or> lower k = ''experiments'') \<or>
      (lower k = ''result'' \<or> lower k = ''results'') \<or>
      lower k = ''discussion'' \<or> lower k = ''conclusion'' \<or> lower k = ''conclusions'' \<or>
      lower k = ''references'' \<or>
      (lower k = ''acknowledgement'' \<or> lower k = ''acknowledgements'') \<or>
      lower k = ''appendix''"
    unfolding section_words_def alts.simps
    by (simp only: lang_Alt lang_plural lang_related lang_word lower_words append_Cons append_Nil)
  moreover have "section_word k \<longleftrightarrow>
      (lower k = ''abstract'' \<or> lower k = ''introduction'' \<or>
      lower k = ''background'' \<or> lower k = ''methodology'' \<or> lower k = ''method'' \<or>
      lower k = ''methods'' \<or> lower k = ''approach'' \<or>
      lower k = ''experiment'' \<or> lower k = ''experiments'' \<or>
      lower k = ''result'' \<or> lower k = ''results'' \<or>
      lower k = ''discussion'' \<or> lower k = ''conclusion'' \<or> lower k = ''conclusions'' \<or>
      lower k = ''references'' \<or>
      lower k = ''acknowledgement'' \<or> lower k = ''acknowledgements'' \<or>
      lower k = ''appendix'') \<or>
      (\<exists>a ws b. k = a @ ws @ b \<and> lower a = ''related'' \<and> list_all is_space ws \<and> lower b = ''work'')"
    unfolding section_word_def section_names_def
    by (simp only: list.set insert_iff empty_iff simp_thms)
  ultimately show ?thesis by argo
qed

lemma lang_section_pattern:
  "q \<in> lang section_pattern \<longleftrightarrow>
   (\<exists>p k. q = p @ k \<and> (p = [] \<or> numbering p) \<and> section_word k)"
proof -
  have "q \<in> lang section_pattern \<longleftrightarrow>
        (\<exists>p k. q = p @ k \<and> (p = [] \<or> p \<in> lang number_prefix) \<and> k \<in> lang section_words)"
    unfolding section_pattern_def by (simp only: lang.simps) blast
  then show ?thesis by (simp only: lang_number_prefix lang_section_words)
qed

lemma re_match_section_pattern:
  "re_match section_pattern l \<longleftrightarrow>
   (\<exists>p k rest. l = p @ k @ rest \<and> (p = [] \<or> numbering p) \<and> section_word k)"
proof -
  have "re_match section_pattern l \<longleftrightarrow> (\<exists>q rest. q \<in> lang section_pattern \<and> l = q @ rest)"
    by (auto simp: re_match_lang)
  also have "\<dots> \<longleftrightarrow> (\<exists>p k rest. l = (p @ k) @ rest \<and> (p = [] \<or> numbering p) \<and> section_word k)"
    by (simp only: lang_section_pattern) blast
  finally show ?thesis by simp
qed

text \<open>
  C6, as the specification states it, fails: \<open>"RelatedWork"\<close> is a trimmed line that
  the program takes for a heading (the pattern has \<open>related\s*work\<close>), and it does not
  start with any word of the vocabulary, whose entry is \<open>related work\<close>.
\<close>

theorem C6_related_work_counterexample:
  "strip ''RelatedWork'' = ''RelatedWork''
 \<and> re_match section_pattern ''RelatedWork''
 \<and> \<not> spec_heading ''RelatedWork''"
  by code_simp

text \<open>
  C6, amended: a trimmed line is a heading if and only if, after an optional prefix made of
  one or more digits, an optional dot and any whitespace, it starts, letter case ignored,
  with one of abstract, introduction, background, methodology, method, methods, approach,
  experiment(s), result(s), discussion, conclusion(s), references, acknowledgement(s),
  appendix, or with \<open>related\<close> and \<open>work\<close> separated by any whitespace or by none;
  the match is of a prefix, not of the whole line. When a line matches, the whole trimmed
  line is the title of the section that begins, with no content yet.
\<close>

theorem C6_heading_lines:
  "(re_match section_pattern l \<longleftrightarrow>
      (\<exists>p k rest. l = p @ k @ rest \<and> (p = [] \<or> numbering p) \<and> section_word k))
 \<and> (re_match section_pattern (strip line) \<longrightarrow>
      snd (section_line line st) = (strip line, []))"
  by (simp add: re_match_section_pattern section_line_def Let_def)

theorem C6_heading_lines_witness:
  "re_match section_pattern ''2. Results and Discussion''
 \<and> snd (section_line ''  2. Results and Discussion '' ([], (''Beginning'', [''text'']))) =
     (''2. Results and Discussion'', [])"
proof -
  have "''2. '' = ''2'' @ ''.'' @ '' '' \<and> ''2'' \<noteq> [] \<and> list_all is_digit ''2'' \<and>
        (''.'' = [] \<or> ''.'' = ''.'') \<and> list_all is_space '' ''"
    by (simp add: is_digit_def is_space_def)
  then have n: "numbering ''2. ''"
    unfolding numbering_def by blast
  have "lower ''Results'' = ''results''" by code_simp
  then have w: "section_word ''Results''"
    by (simp add: section_word_def section_names_def)
  have "''2. Results and Discussion'' = ''2. '' @ ''Results'' @ '' and Discussion''" by simp
  with n w have "\<exists>p k rest. ''2. Results and Discussion'' = p @ k @ rest \<and>
      (p = [] \<or> numbering p) \<and> section_word k"
    by blast
  with C6_heading_lines [of "''2. Results and Discussion''"]
  have m: "re_match section_pattern ''2. Results and Discussion''" by blast
  have s: "strip ''  2. Results and Discussion '' = ''2. Results and Discussion''" by code_simp
  from C6_heading_lines [of "[]" "''  2. Results and Discussion ''" "([], (''Beginning'', [''text'']))"] m s
  have "snd (section_line ''  2. Results and Discussion '' ([], (''Beginning'', [''text'']))) =
     (''2. Results and Discussion'', [])"
    by simp
  with m show ?thesis by simp
qed

end
